theory Spec2Isabelle
  imports Main "HOL-Library.Word" "HOL-Library.Log_Nat"
begin

unbundle bit_operations_syntax

section \<open>Machine types\<close>

text \<open>
  Heatmap.cpp is firmware for an AVR keyboard (the palette lives in \<open>PROGMEM\<close> and is read
  with \<open>pgm_read_byte\<close>). \<open>uint8_t\<close>, \<open>uint16_t\<close> and \<open>uint32_t\<close> are words of that width;
  on this target \<open>int\<close> has 16 bits, so an expression of type \<open>uint16_t\<close> is computed
  modulo \<open>2 ^ 16\<close>.
\<close>

type_synonym u8 = "8 word"
type_synonym u16 = "16 word"
type_synonym u32 = "32 word"

definition INT16_MAX :: u16 where
  "INT16_MAX = 32767"

section \<open>What Heatmap.cpp takes from Kaleidoscope.h\<close>

text \<open>
  The header is not among the sources. The result type of the event handlers is an
  enumeration of which the plugin only ever returns \<open>OK\<close>. The matrix dimensions
  \<open>ROWS\<close> and \<open>COLS\<close>, the flag mask \<open>INJECTED\<close> and the predicate \<open>keyToggledOn\<close> are
  parameters of the model, gathered in one record. \<open>ROWS\<close> and \<open>COLS\<close> are bytes: the
  loops of the plugin count rows and columns in a \<open>uint8_t\<close>.
\<close>

datatype EventHandlerResult = OK | EVENT_CONSUMED | ERROR

record kaleidoscope =
  ROWS :: u8
  COLS :: u8
  INJECTED :: u8
  keyToggledOn :: "u8 \<Rightarrow> bool"

text \<open>The colour structure; its fields are ordered blue, green, red.\<close>

record cRGB =
  b :: u8
  g :: u8
  r :: u8

section \<open>The state of the plugin\<close>

text \<open>
  The static members of \<open>Heatmap\<close>. The counter matrix \<open>heatmap_[ROWS][COLS]\<close> is a function
  of the row and column index, of which only the indices below \<open>ROWS\<close> and \<open>COLS\<close> are
  cells of the array. The palette is a pointer and a separately stored length. The
  members \<open>heatmap_\<close>, \<open>highest_\<close> and \<open>next_heatmap_comp_time_\<close> lose their trailing
  underscore, which a name cannot end with here.
\<close>

record Heatmap =
  heatmap :: "nat \<Rightarrow> nat \<Rightarrow> u16"
  highest :: u16
  next_heatmap_comp_time :: u32
  heat_colors :: "cRGB list"
  heat_colors_length :: u8
  update_delay :: u16

definition heat_colors_default :: "cRGB list" where
  "heat_colors_default =
     [\<lparr>b = 0, g = 0, r = 0\<rparr>, \<lparr>b = 25, g = 255, r = 25\<rparr>,
      \<lparr>b = 25, g = 255, r = 255\<rparr>, \<lparr>b = 25, g = 25, r = 255\<rparr>]"

text \<open>The initial values of the static members (a static array starts zeroed).\<close>

definition Heatmap_init :: Heatmap where
  "Heatmap_init =
     \<lparr>heatmap = (\<lambda>_ _. 0), highest = 1, next_heatmap_comp_time = 0,
      heat_colors = heat_colors_default, heat_colors_length = 4, update_delay = 1000\<rparr>"

section \<open>Single-precision arithmetic\<close>

text \<open>
  A finite \<open>float\<close> is the rational number it denotes. Every operation computes the exact
  result and rounds it to 24 significant bits, to nearest, ties to even (\<open>f32\<close>). The
  exponent range is not modelled (the values of the plugin lie between \<open>2 ^ -24\<close> and
  \<open>2 ^ 16\<close>), nor are infinities and NaN.
\<close>

definition pow2 :: "int \<Rightarrow> rat" where
  "pow2 e = (if 0 \<le> e then 2 ^ nat e else 1 / 2 ^ nat (- e))"

text \<open>For \<open>x > 0\<close>, \<open>ilog2 x\<close> is the integer \<open>k\<close> with \<open>2 ^ k \<le> x < 2 ^ (k + 1)\<close>.\<close>

definition ilog2 :: "rat \<Rightarrow> int" where
  "ilog2 x = (case quotient_of x of (p, q) \<Rightarrow>
     let d = bitlen p - bitlen q
     in if pow2 d \<le> x then d else d - 1)"

definition round_even :: "rat \<Rightarrow> int" where
  "round_even x = (let n = \<lfloor>x\<rfloor>; d = x - of_int n
     in if d < 1 / 2 then n else if 1 / 2 < d then n + 1 else if even n then n else n + 1)"

definition f32 :: "rat \<Rightarrow> rat" where
  "f32 x = (if x = 0 then 0
     else let e = ilog2 \<bar>x\<bar> - 23 in of_int (round_even (x / pow2 e)) * pow2 e)"

definition fadd :: "rat \<Rightarrow> rat \<Rightarrow> rat" where
  "fadd x y = f32 (x + y)"

definition fsub :: "rat \<Rightarrow> rat \<Rightarrow> rat" where
  "fsub x y = f32 (x - y)"

definition fmul :: "rat \<Rightarrow> rat \<Rightarrow> rat" where
  "fmul x y = f32 (x * y)"

definition fdiv :: "rat \<Rightarrow> rat \<Rightarrow> rat" where
  "fdiv x y = f32 (x / y)"

text \<open>A conversion from \<open>float\<close> to an integer type drops the fractional part.\<close>

definition trunc_int :: "rat \<Rightarrow> int" where
  "trunc_int x = (if 0 \<le> x then \<lfloor>x\<rfloor> else \<lceil>x\<rceil>)"

section \<open>computeColor\<close>

text \<open>
  One channel of the result:
  \<open>static_cast<uint8_t>((c2 - c1) * fb + c1)\<close>. The two bytes are subtracted as \<open>int\<close>,
  the difference and \<open>c1\<close> are converted to \<open>float\<close> exactly.
\<close>

definition channel :: "u8 \<Rightarrow> u8 \<Rightarrow> rat \<Rightarrow> u8" where
  "channel c1 c2 fb =
     word_of_int (trunc_int (fadd (fmul (of_int (uint c2 - uint c1)) fb) (of_int (uint c1))))"

definition computeColor :: "Heatmap \<Rightarrow> rat \<Rightarrow> cRGB" where
  "computeColor s v =
     (let (fb, idx1, idx2) =
        (if v \<le> 0 then (0, 0, 0)
         else if 1 \<le> v then (0, heat_colors_length s - 1, heat_colors_length s - 1)
         else
           let val = fmul v (of_int (uint (heat_colors_length s) - 1));
               idx1 = (word_of_int (trunc_int val) :: u8)
           in (fsub val (of_nat (unat idx1)), idx1, idx1 + 1));
        c1 = heat_colors s ! unat idx1;
        c2 = heat_colors s ! unat idx2
      in \<lparr>b = channel (b c1) (b c2) fb,
          g = channel (g c1) (g c2) fb,
          r = channel (r c1) (r c2) fb\<rparr>)"

section \<open>shiftStats\<close>

text \<open>The shift \<open>x >> 1\<close> of a counter.\<close>

definition shr1 :: "u16 \<Rightarrow> u16" where
  "shr1 x = drop_bit 1 x"

text \<open>The body of the inner loop: \<open>heatmap_[r][c] = heatmap_[r][c] >> 1\<close>.\<close>

definition shift_cell :: "nat \<Rightarrow> nat \<Rightarrow> (nat \<Rightarrow> nat \<Rightarrow> u16) \<Rightarrow> nat \<Rightarrow> nat \<Rightarrow> u16" where
  "shift_cell i j hm = hm(i := (hm i)(j := shr1 (hm i j)))"

text \<open>The two nested loops over the rows and the columns, then the shift of \<open>highest_\<close>.\<close>

definition shiftStats :: "kaleidoscope \<Rightarrow> Heatmap \<Rightarrow> Heatmap" where
  "shiftStats K s =
     (let s1 = s\<lparr>heatmap :=
                 fold (\<lambda>i. fold (\<lambda>j. shift_cell i j) [0..<unat (COLS K)])
                   [0..<unat (ROWS K)] (heatmap s)\<rparr>
      in s1\<lparr>highest := shr1 (highest s1)\<rparr>)"

text \<open>What the two loops compute: every cell of the array shifted, nothing else touched.\<close>

definition shifted :: "kaleidoscope \<Rightarrow> (nat \<Rightarrow> nat \<Rightarrow> u16) \<Rightarrow> nat \<Rightarrow> nat \<Rightarrow> u16" where
  "shifted K hm =
     (\<lambda>i j. if i < unat (ROWS K) \<and> j < unat (COLS K) then shr1 (hm i j) else hm i j)"

section \<open>onKeyswitchEvent\<close>

text \<open>
  The handler returns its status and the new state. \<open>mapped_key\<close> is not used. The
  source indexes \<open>heatmap_[row][col]\<close> without a check: an index outside the array has
  no defined behaviour, which is the result \<open>None\<close>.
\<close>

definition onKeyswitchEvent ::
    "kaleidoscope \<Rightarrow> u16 \<Rightarrow> u8 \<Rightarrow> u8 \<Rightarrow> u8 \<Rightarrow> Heatmap \<Rightarrow> (EventHandlerResult \<times> Heatmap) option" where
  "onKeyswitchEvent K mapped_key row col key_state s =
     (if key_state AND INJECTED K \<noteq> 0 then Some (OK, s)
      else if \<not> keyToggledOn K key_state then Some (OK, s)
      else if \<not> (row < ROWS K \<and> col < COLS K) then None
      else
        let i = unat row; j = unat col;
            s1 = s\<lparr>heatmap := (heatmap s)(i := (heatmap s i)(j := heatmap s i j + 1))\<rparr>
        in if highest s1 < heatmap s1 i j then
             let s2 = s1\<lparr>highest := heatmap s1 i j\<rparr>
             in if highest s2 = INT16_MAX then Some (OK, shiftStats K s2) else Some (OK, s2)
           else Some (OK, s1))"

section \<open>beforeEachCycle\<close>

text \<open>
  The threshold \<open>static_cast<uint16_t>(heat_colors_length) << 9\<close> is a 16-bit value.
\<close>

definition beforeEachCycle :: "kaleidoscope \<Rightarrow> Heatmap \<Rightarrow> EventHandlerResult \<times> Heatmap" where
  "beforeEachCycle K s =
     (if push_bit 9 (ucast (heat_colors_length s) :: u16) < highest s
      then (OK, shiftStats K s) else (OK, s))"

section \<open>update\<close>

text \<open>
  \<open>millis()\<close> is the argument \<open>now\<close>: both readings of the clock within one call see the
  same instant. The calls of \<open>LEDControl.setCrgbAt\<close> are returned as the list of their
  arguments, in the order of the calls. With \<open>highest_ = 0\<close> the quotient is an infinity
  or NaN, which have no value here: the result is \<open>None\<close>.
\<close>

type_synonym led_write = "nat \<times> nat \<times> cRGB"

definition heat :: "Heatmap \<Rightarrow> nat \<Rightarrow> nat \<Rightarrow> rat" where
  "heat s i j = fdiv (of_nat (unat (heatmap s i j))) (of_nat (unat (highest s)))"

definition update :: "kaleidoscope \<Rightarrow> u32 \<Rightarrow> Heatmap \<Rightarrow> (Heatmap \<times> led_write list) option" where
  "update K now s =
     (if next_heatmap_comp_time s \<noteq> 0 \<and> now < next_heatmap_comp_time s then Some (s, [])
      else if highest s = 0 then None
      else
        let s1 = s\<lparr>next_heatmap_comp_time := now + ucast (update_delay s)\<rparr>
        in Some (s1,
             fold (\<lambda>i. fold (\<lambda>j out. out @ [(i, j, computeColor s1 (heat s1 i j))])
                         [0..<unat (COLS K)])
               [0..<unat (ROWS K)] []))"

section \<open>The dispatcher\<close>

text \<open>
  The firmware calls the three hooks in any order. A run is a list of such calls; it
  has a final state unless one of the calls has none.
\<close>

datatype event = KeyEvent u16 u8 u8 u8 | Cycle | Render u32

fun step :: "kaleidoscope \<Rightarrow> event \<Rightarrow> Heatmap \<Rightarrow> Heatmap option" where
  "step K (KeyEvent mapped_key row col key_state) s =
     map_option snd (onKeyswitchEvent K mapped_key row col key_state s)"
| "step K Cycle s = Some (snd (beforeEachCycle K s))"
| "step K (Render now) s = map_option fst (update K now s)"

fun run :: "kaleidoscope \<Rightarrow> event list \<Rightarrow> Heatmap \<Rightarrow> Heatmap option" where
  "run K [] s = Some s"
| "run K (e # es) s = (case step K e s of None \<Rightarrow> None | Some s' \<Rightarrow> run K es s')"

text \<open>A state as the firmware starts in: every counter zero and \<open>highest_ = 1\<close>.\<close>

definition initial :: "Heatmap \<Rightarrow> bool" where
  "initial s \<longleftrightarrow> heatmap s = (\<lambda>_ _. 0) \<and> highest s = 1"

text \<open>
  The part of \<open>onKeyswitchEvent\<close> after the two filters and the index: the increment
  of the cell, the update of \<open>highest_\<close> and the shift at \<open>INT16_MAX\<close>.
\<close>

definition pressed :: "kaleidoscope \<Rightarrow> nat \<Rightarrow> nat \<Rightarrow> Heatmap \<Rightarrow> Heatmap" where
  "pressed K i j s =
     (let c = heatmap s i j + 1;
          s1 = s\<lparr>heatmap := (heatmap s)(i := (heatmap s i)(j := c))\<rparr>
      in if highest s < c
         then if c = INT16_MAX then shiftStats K (s1\<lparr>highest := c\<rparr>) else s1\<lparr>highest := c\<rparr>
         else s1)"

text \<open>
  The state \<open>s\<close> with \<open>k\<close> added to the cell at \<open>(i, j)\<close> and \<open>highest_\<close> raised to the
  new value of the cell where that is larger, and nothing shifted.
\<close>

definition bumped :: "nat \<Rightarrow> nat \<Rightarrow> nat \<Rightarrow> Heatmap \<Rightarrow> Heatmap" where
  "bumped i j k s =
     s\<lparr>heatmap := (heatmap s)(i := (heatmap s i)(j := heatmap s i j + of_nat k)),
       highest := max (highest s) (heatmap s i j + of_nat k)\<rparr>"

text \<open>
  The invariant of the counters: \<open>highest_\<close> stays below \<open>INT16_MAX\<close> and no cell of the
  array exceeds it.
\<close>

definition counters_ok :: "kaleidoscope \<Rightarrow> Heatmap \<Rightarrow> bool" where
  "counters_ok K s \<longleftrightarrow>
     highest s < INT16_MAX \<and>
     (\<forall>i<unat (ROWS K). \<forall>j<unat (COLS K). heatmap s i j \<le> highest s)"

text \<open>
  An instance to evaluate the model on: a matrix of 4 rows and 16 columns, the flag
  \<open>INJECTED\<close> in bit 7, and a key that toggled on is pressed now (bit 1) and was not
  pressed before (bit 0).
\<close>

definition board :: kaleidoscope where
  "board = \<lparr>ROWS = 4, COLS = 16, INJECTED = 128,
            keyToggledOn = (\<lambda>st. st AND 2 \<noteq> 0 \<and> st AND 1 = 0)\<rparr>"

section \<open>Properties of the arithmetic\<close>

lemma round_even_of_int: "round_even (of_int m) = m"
  by (simp add: round_even_def)

lemma trunc_int_of_int: "trunc_int (of_int m) = m"
  by (simp add: trunc_int_def)

lemma pow2_nonpos: "e \<le> 0 \<Longrightarrow> pow2 e = 1 / 2 ^ nat (- e)"
  by (simp add: pow2_def)

lemma ilog2_of_int_le:
  assumes "0 < m" and "m < 2 ^ 24"
  shows "ilog2 (of_int m) \<le> 23"
proof -
  have "bitlen m \<le> 24"
    using assms by (simp add: bitlen_le_iff_power)
  moreover have "bitlen 1 = 1"
    by (simp add: bitlen_alt_def)
  ultimately show ?thesis
    by (simp add: ilog2_def Let_def)
qed

text \<open>An integer of fewer than 25 bits is a \<open>float\<close>: converting it is exact.\<close>

lemma f32_of_int:
  assumes "\<bar>m\<bar> < 2 ^ 24"
  shows "f32 (of_int m) = of_int m"
proof (cases "m = 0")
  case True
  then show ?thesis by (simp add: f32_def)
next
  case False
  define e where "e = ilog2 \<bar>of_int m\<bar> - 23"
  have "ilog2 (of_int \<bar>m\<bar>) \<le> 23"
    using assms False by (intro ilog2_of_int_le) auto
  then have e: "e \<le> 0"
    by (simp add: e_def)
  define k where "k = nat (- e)"
  have p: "pow2 e = 1 / 2 ^ k"
    using e by (simp add: pow2_nonpos k_def)
  have "of_int m / pow2 e = (of_int (m * 2 ^ k) :: rat)"
    by (simp add: p)
  then have "round_even (of_int m / pow2 e) = m * 2 ^ k"
    by (simp only: round_even_of_int)
  then have "f32 (of_int m) = of_int (m * 2 ^ k) * pow2 e"
    using False by (simp add: f32_def e_def Let_def)
  then show ?thesis
    by (simp add: p)
qed

lemma f32_byte: "f32 (of_int (uint (c :: u8))) = of_int (uint c)"
proof -
  have "uint c < 256"
    using uint_bounded [of c] by simp
  moreover have "0 \<le> uint c"
    by simp
  ultimately have "\<bar>uint c\<bar> < 2 ^ 24"
    by simp
  then show ?thesis
    by (rule f32_of_int)
qed

lemma f32_zero: "f32 0 = 0"
  by (simp add: f32_def)

lemma channel_same: "channel c c 0 = c"
proof -
  have "fmul (of_int (uint c - uint c)) 0 = 0"
    by (simp add: fmul_def f32_zero)
  then have "fadd (fmul (of_int (uint c - uint c)) 0) (of_int (uint c)) = of_int (uint c)"
    by (simp only: fadd_def add_0_left f32_byte)
  then show ?thesis
    by (simp only: channel_def trunc_int_of_int word_of_int_uint)
qed

section \<open>The colour gradient\<close>

text \<open>The steps of \<open>computeColor(0.8)\<close> on a palette of four stops, each one evaluated.\<close>

lemma literal_08: "f32 (8 / 10) = 13421773 / 16777216"
  by code_simp

lemma val_08: "fmul (13421773 / 16777216) 3 = 5033165 / 2097152"
  by code_simp

lemma idx1_08: "trunc_int (5033165 / 2097152) = 2"
  by code_simp

lemma fb_08: "fsub (5033165 / 2097152) 2 = 838861 / 2097152"
  by code_simp

lemma channel_rising_08: "channel 25 255 (838861 / 2097152) = 117"
  by code_simp

lemma channel_falling_08: "channel 255 25 (838861 / 2097152) = 162"
  by code_simp

lemma channel_level_08: "channel 255 255 (838861 / 2097152) = 255"
  by code_simp

lemma computeColor_08:
  assumes "heat_colors_length s = 4"
  shows "computeColor s (13421773 / 16777216) =
    \<lparr>b = channel (b (heat_colors s ! 2)) (b (heat_colors s ! 3)) (838861 / 2097152),
     g = channel (g (heat_colors s ! 2)) (g (heat_colors s ! 3)) (838861 / 2097152),
     r = channel (r (heat_colors s ! 2)) (r (heat_colors s ! 3)) (838861 / 2097152)\<rparr>"
  by (simp add: computeColor_def assms val_08 idx1_08 fb_08 Let_def)

text \<open>
  Claim C2, as stated: with the default palette, \<open>computeColor(0.8)\<close> has the red channel
  117. It does not: the default stops are stored blue, green, red, so the red components
  of the stops are 0, 25, 255, 255 and the red channel between stops 2 and 3 is 255.
\<close>

theorem C2_default_palette_red_is_255:
  "r (computeColor Heatmap_init (f32 (8 / 10))) = 255 \<and>
   r (computeColor Heatmap_init (f32 (8 / 10))) \<noteq> 117"
  unfolding literal_08
  by (simp add: computeColor_08 Heatmap_init_def heat_colors_default_def channel_level_08)

text \<open>
  Claim C2, amended: on a palette of length 4 whose red components at the stops 2 and 3
  are 25 and 255 (the palette of the worked example in the source: red components
  0, 25, 25, 255), \<open>computeColor(0.8)\<close> has the red channel 117, from \<open>idx1 = 2\<close>,
  \<open>idx2 = 3\<close> and the single-precision blend factor next to 0.4.
\<close>

theorem C2_example_palette_red_is_117:
  assumes "heat_colors_length s = 4"
    and "r (heat_colors s ! 2) = 25"
    and "r (heat_colors s ! 3) = 255"
  shows "r (computeColor s (f32 (8 / 10))) = 117"
  unfolding literal_08
  by (simp add: computeColor_08 assms channel_rising_08)

theorem C2_example_palette_witness:
  "r (computeColor
        (Heatmap_init\<lparr>heat_colors :=
           [\<lparr>b = 0, g = 0, r = 0\<rparr>, \<lparr>b = 25, g = 255, r = 25\<rparr>,
            \<lparr>b = 255, g = 255, r = 25\<rparr>, \<lparr>b = 255, g = 25, r = 255\<rparr>]\<rparr>)
        (f32 (8 / 10))) = 117"
  by (rule C2_example_palette_red_is_117) (simp_all add: Heatmap_init_def)

text \<open>
  Claim C3: for a palette of at least two stops, an input \<open>v \<le> 0\<close> gives the first stop
  and an input \<open>v \<ge> 1\<close> gives the last stop, both exactly, and a negative input gives
  what the input 0 gives.
\<close>

theorem C3_computeColor_clamp:
  assumes "length (heat_colors s) = unat (heat_colors_length s)"
    and "2 \<le> unat (heat_colors_length s)"
  shows "(v \<le> 0 \<longrightarrow> computeColor s v = hd (heat_colors s)) \<and>
         (1 \<le> v \<longrightarrow> computeColor s v = last (heat_colors s)) \<and>
         (v < 0 \<longrightarrow> computeColor s v = computeColor s 0)"
proof -
  have ne: "heat_colors s \<noteq> []"
    using assms by auto
  have lo: "computeColor s x = heat_colors s ! 0" if "x \<le> 0" for x
    using that by (simp add: computeColor_def channel_same Let_def)
  have "heat_colors_length s \<noteq> 0"
    using assms(2) by auto
  then have "unat (heat_colors_length s - 1) = length (heat_colors s) - 1"
    by (simp add: unat_minus_one assms(1))
  then have hi: "computeColor s x = heat_colors s ! (length (heat_colors s) - 1)"
    if "1 \<le> x" for x
    using that by (simp add: computeColor_def channel_same Let_def)
  show ?thesis
    using lo [of v] lo [of 0] hi [of v] ne by (simp add: hd_conv_nth last_conv_nth)
qed

theorem C3_computeColor_clamp_witness:
  "computeColor Heatmap_init (- 3) = \<lparr>b = 0, g = 0, r = 0\<rparr> \<and>
   computeColor Heatmap_init 2 = \<lparr>b = 25, g = 25, r = 255\<rparr> \<and>
   computeColor Heatmap_init (- 3) = computeColor Heatmap_init 0"
  using C3_computeColor_clamp [of Heatmap_init "- 3"] C3_computeColor_clamp [of Heatmap_init 2]
    C3_computeColor_clamp [of Heatmap_init 0]
  by (simp add: Heatmap_init_def heat_colors_default_def)

section \<open>Halving the counters\<close>

lemma unat_shr1: "unat (shr1 x) = unat x div 2"
  by (simp add: shr1_def drop_bit_eq_div unat_div)

lemma fold_shift_row:
  "fold (\<lambda>j. shift_cell i j) [0..<n] hm =
     (\<lambda>i' j'. if i' = i \<and> j' < n then shr1 (hm i' j') else hm i' j')"
proof (induction n)
  case 0
  show ?case by simp
next
  case (Suc n)
  have "fold (\<lambda>j. shift_cell i j) [0..<Suc n] hm =
      shift_cell i n (fold (\<lambda>j. shift_cell i j) [0..<n] hm)"
    by simp
  also have "\<dots> = shift_cell i n
      (\<lambda>i' j'. if i' = i \<and> j' < n then shr1 (hm i' j') else hm i' j')"
    by (simp only: Suc)
  also have "\<dots> =
      (\<lambda>i' j'. if i' = i \<and> j' < Suc n then shr1 (hm i' j') else hm i' j')"
    by (auto simp add: shift_cell_def fun_eq_iff less_Suc_eq)
  finally show ?case .
qed

lemma fold_shift_grid:
  "fold (\<lambda>i. fold (\<lambda>j. shift_cell i j) [0..<c]) [0..<n] hm =
     (\<lambda>i' j'. if i' < n \<and> j' < c then shr1 (hm i' j') else hm i' j')"
proof (induction n)
  case 0
  show ?case by simp
next
  case (Suc n)
  have "fold (\<lambda>i. fold (\<lambda>j. shift_cell i j) [0..<c]) [0..<Suc n] hm =
      fold (\<lambda>j. shift_cell n j) [0..<c]
        (fold (\<lambda>i. fold (\<lambda>j. shift_cell i j) [0..<c]) [0..<n] hm)"
    by simp
  also have "\<dots> = fold (\<lambda>j. shift_cell n j) [0..<c]
      (\<lambda>i' j'. if i' < n \<and> j' < c then shr1 (hm i' j') else hm i' j')"
    by (simp only: Suc)
  also have "\<dots> =
      (\<lambda>i' j'. if i' < Suc n \<and> j' < c then shr1 (hm i' j') else hm i' j')"
    by (auto simp add: fold_shift_row fun_eq_iff less_Suc_eq)
  finally show ?case .
qed

lemma shiftStats_eq:
  "shiftStats K s = s\<lparr>heatmap := shifted K (heatmap s), highest := shr1 (highest s)\<rparr>"
  by (simp add: shiftStats_def fold_shift_grid shifted_def)

lemma heatmap_shiftStats: "heatmap (shiftStats K s) = shifted K (heatmap s)"
  by (simp add: shiftStats_eq)

lemma highest_shiftStats: "highest (shiftStats K s) = shr1 (highest s)"
  by (simp add: shiftStats_eq)

text \<open>
  Claim C4: one call of \<open>shiftStats\<close> maps every cell of the array to the floor of half
  its value and \<open>highest_\<close> to the floor of half its value, and changes nothing else.
\<close>

theorem C4_shiftStats_halves:
  "(\<forall>i<unat (ROWS K). \<forall>j<unat (COLS K).
      unat (heatmap (shiftStats K s) i j) = unat (heatmap s i j) div 2) \<and>
   unat (highest (shiftStats K s)) = unat (highest s) div 2 \<and>
   (\<forall>i j. \<not> (i < unat (ROWS K) \<and> j < unat (COLS K)) \<longrightarrow>
      heatmap (shiftStats K s) i j = heatmap s i j) \<and>
   shiftStats K s = s\<lparr>heatmap := heatmap (shiftStats K s), highest := highest (shiftStats K s)\<rparr>"
  by (simp add: shiftStats_eq unat_shr1 shifted_def)

theorem C4_shiftStats_halves_witness:
  "unat (heatmap (shiftStats board
      (Heatmap_init\<lparr>heatmap := (\<lambda>i j. if i = 2 \<and> j = 3 then 5 else 0), highest := 5\<rparr>)) 2 3) = 2 \<and>
   heatmap (shiftStats board
      (Heatmap_init\<lparr>heatmap := (\<lambda>i j. if i = 2 \<and> j = 3 then 5 else 0), highest := 5\<rparr>)) 4 16 = 0"
  using C4_shiftStats_halves [of board "Heatmap_init\<lparr>heatmap := (\<lambda>i j. if i = 2 \<and> j = 3 then 5 else 0), highest := 5\<rparr>"]
  by (simp add: board_def)

lemma shift_twice: "shr1 (shr1 x) = shr1 x \<longleftrightarrow> x \<le> 1"
proof -
  have "shr1 (shr1 x) = shr1 x \<longleftrightarrow> unat x div 2 div 2 = unat x div 2"
    by (simp add: word_unat_eq_iff unat_shr1)
  also have "\<dots> \<longleftrightarrow> unat x \<le> 1"
    by auto
  also have "\<dots> \<longleftrightarrow> x \<le> 1"
    by (simp add: word_le_nat_alt)
  finally show ?thesis .
qed

text \<open>
  Claim C9, amended: \<open>shiftStats\<close> is not idempotent. A second call gives the result of
  the first exactly when \<open>highest_\<close> and every cell of the array are at most 1, that
  is when the first call already leaves nothing but zeros.
\<close>

theorem C9_shiftStats_twice:
  "shiftStats K (shiftStats K s) = shiftStats K s \<longleftrightarrow>
     highest s \<le> 1 \<and> (\<forall>i<unat (ROWS K). \<forall>j<unat (COLS K). heatmap s i j \<le> 1)"
proof
  assume eq: "shiftStats K (shiftStats K s) = shiftStats K s"
  from arg_cong [OF eq, of highest] have "highest s \<le> 1"
    by (simp add: highest_shiftStats shift_twice)
  moreover have "heatmap s i j \<le> 1" if "i < unat (ROWS K)" and "j < unat (COLS K)" for i j
  proof -
    from arg_cong [OF eq, of "\<lambda>t. heatmap t i j"]
    have "shr1 (shr1 (heatmap s i j)) = shr1 (heatmap s i j)"
      using that by (simp add: heatmap_shiftStats shifted_def)
    then show ?thesis
      by (simp add: shift_twice)
  qed
  ultimately show "highest s \<le> 1 \<and> (\<forall>i<unat (ROWS K). \<forall>j<unat (COLS K). heatmap s i j \<le> 1)"
    by simp
next
  assume small: "highest s \<le> 1 \<and> (\<forall>i<unat (ROWS K). \<forall>j<unat (COLS K). heatmap s i j \<le> 1)"
  have "shr1 (shr1 (highest s)) = shr1 (highest s)"
    using small by (simp add: shift_twice)
  moreover have "shifted K (shifted K (heatmap s)) = shifted K (heatmap s)"
    using small by (auto simp add: shifted_def fun_eq_iff shift_twice)
  ultimately show "shiftStats K (shiftStats K s) = shiftStats K s"
    by (simp add: shiftStats_eq)
qed

theorem C9_shiftStats_twice_witness:
  "shiftStats board (shiftStats board Heatmap_init) = shiftStats board Heatmap_init"
  using C9_shiftStats_twice [of board Heatmap_init] by (simp add: Heatmap_init_def)

text \<open>
  Claim C9, as stated: applying \<open>shiftStats\<close> twice gives the same state as applying it
  once. After four presses of the key at row 2, column 3 it does not: \<open>highest_\<close> goes
  from 4 to 2 and then to 1.
\<close>

theorem C9_shiftStats_not_idempotent:
  "shiftStats board (shiftStats board
      (Heatmap_init\<lparr>heatmap := (\<lambda>i j. if i = 2 \<and> j = 3 then 4 else 0), highest := 4\<rparr>))
   \<noteq> shiftStats board
      (Heatmap_init\<lparr>heatmap := (\<lambda>i j. if i = 2 \<and> j = 3 then 4 else 0), highest := 4\<rparr>)"
proof
  let ?s = "Heatmap_init\<lparr>heatmap := (\<lambda>i j. if i = 2 \<and> j = 3 then 4 else 0), highest := 4\<rparr>"
  assume "shiftStats board (shiftStats board ?s) = shiftStats board ?s"
  then have "highest (shiftStats board (shiftStats board ?s)) = highest (shiftStats board ?s)"
    by (rule arg_cong)
  then have "unat (shr1 (shr1 (4 :: u16))) = unat (shr1 (4 :: u16))"
    by (simp add: highest_shiftStats)
  then show False
    by (simp add: unat_shr1)
qed

section \<open>The cycle hook\<close>

lemma threshold_unat:
  assumes "unat (len :: u8) < 128"
  shows "unat (push_bit 9 (ucast len :: u16)) = unat len * 512"
proof -
  have "unat len < 2 ^ 16"
    using assms by simp
  then have "unat (ucast len :: u16) = unat len"
    by (simp add: unsigned_ucast_eq take_bit_nat_eq_self)
  then have "unat (ucast len :: u16) * unat (512 :: u16) < 2 ^ LENGTH(16)"
    using assms by simp
  then have "unat ((ucast len :: u16) * 512) = unat (ucast len :: u16) * unat (512 :: u16)"
    by (simp only: unat_mult_lem)
  then show ?thesis
    by (simp add: push_bit_eq_mult \<open>unat (ucast len :: u16) = unat len\<close>)
qed

lemma beforeEachCycle_eq:
  "beforeEachCycle K s =
     (OK, if (ucast (heat_colors_length s) :: u16) * 512 < highest s then shiftStats K s else s)"
  by (simp add: beforeEachCycle_def push_bit_eq_mult)

text \<open>
  Claim C6: a cycle calls \<open>shiftStats\<close> exactly when \<open>highest_\<close> exceeds the palette length
  times 512, and otherwise leaves the state as it is; the next render time plays no part.
  The product is the 16-bit product of the source; for a palette of at most 127 stops
  it is the product of the natural numbers.
\<close>

theorem C6_beforeEachCycle_decay:
  "beforeEachCycle K s =
     (OK, if (ucast (heat_colors_length s) :: u16) * 512 < highest s then shiftStats K s else s) \<and>
   (unat (heat_colors_length s) < 128 \<longrightarrow>
      ((ucast (heat_colors_length s) :: u16) * 512 < highest s \<longleftrightarrow>
       unat (heat_colors_length s) * 512 < unat (highest s))) \<and>
   beforeEachCycle K (s\<lparr>next_heatmap_comp_time := t\<rparr>) =
     (OK, (snd (beforeEachCycle K s))\<lparr>next_heatmap_comp_time := t\<rparr>)"
proof (intro conjI impI)
  show "beforeEachCycle K s =
     (OK, if (ucast (heat_colors_length s) :: u16) * 512 < highest s then shiftStats K s else s)"
    by (rule beforeEachCycle_eq)
  show "(ucast (heat_colors_length s) :: u16) * 512 < highest s \<longleftrightarrow>
       unat (heat_colors_length s) * 512 < unat (highest s)"
    if "unat (heat_colors_length s) < 128"
    using threshold_unat [OF that] by (simp add: word_less_nat_alt push_bit_eq_mult)
  show "beforeEachCycle K (s\<lparr>next_heatmap_comp_time := t\<rparr>) =
     (OK, (snd (beforeEachCycle K s))\<lparr>next_heatmap_comp_time := t\<rparr>)"
    by (simp add: beforeEachCycle_def shiftStats_eq)
qed

theorem C6_beforeEachCycle_decay_witness:
  "unat (heat_colors_length (Heatmap_init\<lparr>highest := 2049\<rparr>)) < 128 \<and>
   unat (heat_colors_length (Heatmap_init\<lparr>highest := 2049\<rparr>)) * 512
     < unat (highest (Heatmap_init\<lparr>highest := 2049\<rparr>)) \<and>
   beforeEachCycle board (Heatmap_init\<lparr>highest := 2049\<rparr>) =
     (OK, shiftStats board (Heatmap_init\<lparr>highest := 2049\<rparr>)) \<and>
   beforeEachCycle board (Heatmap_init\<lparr>highest := 2048\<rparr>) =
     (OK, Heatmap_init\<lparr>highest := 2048\<rparr>)"
proof -
  let ?hot = "Heatmap_init\<lparr>highest := 2049\<rparr>"
  let ?cool = "Heatmap_init\<lparr>highest := 2048\<rparr>"
  have small: "unat (heat_colors_length ?hot) < 128" "unat (heat_colors_length ?cool) < 128"
    by (simp_all add: Heatmap_init_def)
  have above: "unat (heat_colors_length ?hot) * 512 < unat (highest ?hot)"
    by (simp add: Heatmap_init_def)
  have below: "\<not> unat (heat_colors_length ?cool) * 512 < unat (highest ?cool)"
    by (simp add: Heatmap_init_def)
  from above have "beforeEachCycle board ?hot = (OK, shiftStats board ?hot)"
    using C6_beforeEachCycle_decay [of board ?hot 0] small(1) by presburger
  moreover from below have "beforeEachCycle board ?cool = (OK, ?cool)"
    using C6_beforeEachCycle_decay [of board ?cool 0] small(2) by presburger
  ultimately show ?thesis
    using small(1) above by blast
qed

section \<open>The key handler\<close>

text \<open>
  Claim C7: a key event with the flag \<open>INJECTED\<close>, and a key event that is not a key
  toggling on, leave the whole state unchanged; and whenever the handler returns, it
  returns \<open>OK\<close>, which it does for every event of a key of the matrix.
\<close>

theorem C7_onKeyswitchEvent_filter:
  "(key_state AND INJECTED K \<noteq> 0 \<or> \<not> keyToggledOn K key_state \<longrightarrow>
      onKeyswitchEvent K mapped_key row col key_state s = Some (OK, s)) \<and>
   (\<forall>res s'. onKeyswitchEvent K mapped_key row col key_state s = Some (res, s') \<longrightarrow> res = OK) \<and>
   (row < ROWS K \<and> col < COLS K \<longrightarrow>
      onKeyswitchEvent K mapped_key row col key_state s \<noteq> None)"
  by (auto simp add: onKeyswitchEvent_def Let_def split: if_splits)

theorem C7_onKeyswitchEvent_filter_witness:
  "onKeyswitchEvent board 0 2 3 130 Heatmap_init = Some (OK, Heatmap_init) \<and>
   onKeyswitchEvent board 0 2 3 3 Heatmap_init = Some (OK, Heatmap_init) \<and>
   onKeyswitchEvent board 0 2 3 0 Heatmap_init = Some (OK, Heatmap_init) \<and>
   onKeyswitchEvent board 0 2 3 2 Heatmap_init \<noteq> None \<and>
   fst (the (onKeyswitchEvent board 0 2 3 2 Heatmap_init)) = OK"
proof -
  have inj: "(130 :: u8) AND INJECTED board \<noteq> 0"
    by (simp add: board_def)
  have held: "\<not> keyToggledOn board 3"
    by (simp add: board_def)
  have released: "\<not> keyToggledOn board 0"
    by (simp add: board_def)
  have inside: "(2 :: u8) < ROWS board \<and> (3 :: u8) < COLS board"
    by (simp add: board_def)
  obtain res s' where some: "onKeyswitchEvent board 0 2 3 2 Heatmap_init = Some (res, s')"
    using C7_onKeyswitchEvent_filter [of 2 board 0 2 3 Heatmap_init] inside by auto
  then have "res = OK"
    using C7_onKeyswitchEvent_filter [of 2 board 0 2 3 Heatmap_init] by blast
  with some show ?thesis
    using C7_onKeyswitchEvent_filter [of 130 board 0 2 3 Heatmap_init] C7_onKeyswitchEvent_filter [of 3 board 0 2 3 Heatmap_init]
      C7_onKeyswitchEvent_filter [of 0 board 0 2 3 Heatmap_init] inj held released
    by simp
qed

section \<open>The invariant of the counters\<close>

lemma counters_ok_unat:
  "counters_ok K s \<longleftrightarrow>
     unat (highest s) < 32767 \<and>
     (\<forall>i<unat (ROWS K). \<forall>j<unat (COLS K). unat (heatmap s i j) \<le> unat (highest s))"
  by (simp add: counters_ok_def INT16_MAX_def word_less_nat_alt word_le_nat_alt)

lemma unat_incr:
  assumes "unat (c :: u16) < 65535"
  shows "unat (c + 1) = unat c + 1"
proof -
  have "unat c + unat (1 :: u16) < 2 ^ LENGTH(16)"
    using assms by simp
  then have "unat (c + 1) = unat c + unat (1 :: u16)"
    by (simp only: unat_add_lem)
  then show ?thesis
    by simp
qed

lemma shiftStats_ok:
  assumes "unat (highest s) \<le> 32767"
    and "\<forall>i<unat (ROWS K). \<forall>j<unat (COLS K). unat (heatmap s i j) \<le> unat (highest s)"
  shows "counters_ok K (shiftStats K s)"
proof -
  have "unat (shr1 (highest s)) < 32767"
    using assms(1) by (simp add: unat_shr1)
  moreover have "unat (shr1 (heatmap s i j)) \<le> unat (shr1 (highest s))"
    if "i < unat (ROWS K)" and "j < unat (COLS K)" for i j
    using assms(2) that by (simp add: unat_shr1 div_le_mono)
  ultimately show ?thesis
    by (simp add: counters_ok_unat shiftStats_eq shifted_def)
qed

lemma onKeyswitchEvent_cases:
  "onKeyswitchEvent K mapped_key row col key_state s =
     (if key_state AND INJECTED K \<noteq> 0 \<or> \<not> keyToggledOn K key_state then Some (OK, s)
      else if row < ROWS K \<and> col < COLS K then Some (OK, pressed K (unat row) (unat col) s)
      else None)"
  by (simp add: onKeyswitchEvent_def pressed_def Let_def)

lemma counters_ok_pressed:
  assumes ok: "counters_ok K s" and i: "i < unat (ROWS K)" and j: "j < unat (COLS K)"
  shows "counters_ok K (pressed K i j s)"
proof -
  define c where "c = heatmap s i j + 1"
  define s1 where "s1 = s\<lparr>heatmap := (heatmap s)(i := (heatmap s i)(j := c))\<rparr>"
  have h: "unat (highest s) < 32767"
    and cells: "\<And>i' j'. i' < unat (ROWS K) \<Longrightarrow> j' < unat (COLS K) \<Longrightarrow>
      unat (heatmap s i' j') \<le> unat (highest s)"
    using ok by (simp_all add: counters_ok_unat)
  have old: "unat (heatmap s i j) \<le> unat (highest s)"
    using cells i j by simp
  then have c: "unat c = unat (heatmap s i j) + 1"
    unfolding c_def using h by (intro unat_incr) simp
  have new: "unat (heatmap s1 i' j') \<le> max (unat (highest s)) (unat c)"
    if "i' < unat (ROWS K)" and "j' < unat (COLS K)" for i' j'
    using cells [OF that] by (auto simp add: s1_def max_def)
  have p: "pressed K i j s =
      (if highest s < c
       then if c = INT16_MAX then shiftStats K (s1\<lparr>highest := c\<rparr>) else s1\<lparr>highest := c\<rparr>
       else s1)"
    by (simp add: pressed_def c_def s1_def Let_def)
  show ?thesis
  proof (cases "highest s < c")
    case False
    then have "unat c \<le> unat (highest s)"
      by (simp add: word_less_nat_alt)
    then have "counters_ok K s1"
      using h new by (simp add: counters_ok_unat s1_def max_def)
    with False p show ?thesis
      by simp
  next
    case True
    then have lt: "unat (highest s) < unat c"
      by (simp add: word_less_nat_alt)
    have le: "unat c \<le> 32767"
      using c old h by simp
    have cells': "\<forall>i'<unat (ROWS K). \<forall>j'<unat (COLS K).
        unat (heatmap (s1\<lparr>highest := c\<rparr>) i' j') \<le> unat (highest (s1\<lparr>highest := c\<rparr>))"
      using new lt by (auto simp add: max_def)
    show ?thesis
    proof (cases "c = INT16_MAX")
      case True
      have "counters_ok K (shiftStats K (s1\<lparr>highest := c\<rparr>))"
        using le cells' by (intro shiftStats_ok) simp_all
      with True \<open>highest s < c\<close> p show ?thesis
        by simp
    next
      case False
      then have "unat c \<noteq> 32767"
        by (simp add: INT16_MAX_def word_unat_eq_iff)
      with le have "unat (highest (s1\<lparr>highest := c\<rparr>)) < 32767"
        by simp
      with cells' have "counters_ok K (s1\<lparr>highest := c\<rparr>)"
        by (simp add: counters_ok_unat)
      with False \<open>highest s < c\<close> p show ?thesis
        by simp
    qed
  qed
qed

lemma counters_ok_key:
  assumes "counters_ok K s"
    and "onKeyswitchEvent K mapped_key row col key_state s = Some (res, s')"
  shows "counters_ok K s'"
  using assms
  by (auto simp add: onKeyswitchEvent_cases word_less_nat_alt counters_ok_pressed split: if_splits)

lemma counters_ok_cycle:
  assumes "counters_ok K s"
  shows "counters_ok K (snd (beforeEachCycle K s))"
proof -
  have "counters_ok K (shiftStats K s)"
    using assms by (intro shiftStats_ok) (simp_all add: counters_ok_unat)
  with assms show ?thesis
    by (simp add: beforeEachCycle_def)
qed

lemma counters_ok_update:
  assumes "counters_ok K s" and "update K now s = Some (s', leds)"
  shows "counters_ok K s'"
  using assms by (auto simp add: update_def counters_ok_def Let_def split: if_splits)

lemma counters_ok_step:
  assumes "counters_ok K s" and "step K e s = Some s'"
  shows "counters_ok K s'"
proof (cases e)
  case (KeyEvent mapped_key row col key_state)
  with assms show ?thesis
    by (auto dest: counters_ok_key)
next
  case Cycle
  with assms show ?thesis
    by (auto dest: counters_ok_cycle)
next
  case (Render now)
  with assms show ?thesis
    by (auto dest: counters_ok_update)
qed

lemma counters_ok_run:
  assumes "counters_ok K s" and "run K es s = Some s'"
  shows "counters_ok K s'"
  using assms
proof (induction es arbitrary: s)
  case Nil
  then show ?case by simp
next
  case (Cons e es)
  then show ?case
    by (auto split: option.splits dest: counters_ok_step)
qed

lemma counters_ok_initial: "initial s \<Longrightarrow> counters_ok K s"
  by (simp add: initial_def counters_ok_def INT16_MAX_def)

end
